theory Spec2Isabelle
  imports Main "HOL-Library.AList"
begin

section \<open>Data model\<close>

subsection \<open>The type-description document (input)\<close>

text \<open>
  The input is the tree that \<^verbatim>\<open>json.load\<close> returns. Its fields are typed the way
  \<^verbatim>\<open>schemaType\<close> and \<^verbatim>\<open>gen_openapi\<close> read them. A key read with \<^verbatim>\<open>.get\<close>
  (\<^verbatim>\<open>wrappedType\<close>, \<^verbatim>\<open>supertype\<close>) is an option, \<open>None\<close> when the key is absent.
  \<^verbatim>\<open>properties\<close> is an option as well: value and array descriptors do not carry it, and
  \<^verbatim>\<open>t['properties']\<close> raises on an object descriptor without it. The other fields are
  read with a subscript and have the types of the data model: names, kinds and type names
  are strings, \<^verbatim>\<open>isOptional\<close> is a boolean, the two version numbers are integers.
\<close>

record PropertyDescriptor =
  prop_name :: string
  prop_type :: string
  prop_wrapped_type :: "string option"
  prop_is_optional :: bool

record TypeInfo =
  ti_name :: string
  ti_supertype :: "string option"

record TypeDescriptor =
  td_kind :: string
  td_type :: TypeInfo
  td_properties :: "PropertyDescriptor list option"

record Version =
  ver_major :: int
  ver_minor :: int

record Document =
  doc_name :: string
  doc_version :: Version
  doc_signature :: string
  doc_types :: "TypeDescriptor list"

subsection \<open>The schema document (output)\<close>

text \<open>
  \<^verbatim>\<open>JSONSchemaProperty\<close> is the union of the five property dictionaries of the source:
  \<^verbatim>\<open>{'$ref': r}\<close>, \<^verbatim>\<open>{'type': 'array', 'items': s}\<close>, \<^verbatim>\<open>{'type': t, 'format': f}\<close>,
  \<^verbatim>\<open>{'type': t}\<close> and \<^verbatim>\<open>{}\<close>.
\<close>

datatype JSONSchemaProperty =
    PropertyReference string
  | PropertyTypedArray JSONSchemaProperty
  | PropertyTypedFormatted string string
  | PropertyTyped string
  | PropertyAny

text \<open>
  A Python \<^verbatim>\<open>dict\<close> keeps its keys in the order of their first insertion, and an
  assignment to a key that is already there replaces the value in place. An association
  list written with \<^const>\<open>AList.update\<close> does the same.
\<close>

type_synonym JSONSchemaProperties = "(string \<times> JSONSchemaProperty) list"

record JSONSchemaType =
  schema_type :: string
  schema_properties :: JSONSchemaProperties
  schema_additionalProperties :: bool
  schema_required :: "string list"

datatype JSONSchemaNode =
    NodeReference string
  | NodeType JSONSchemaType

datatype JSONSchema =
    Composing "JSONSchemaNode list"
  | Plain JSONSchemaNode

record OpenAPIInfo =
  info_title :: string
  info_version :: string
  info_x_signature :: string

record OpenAPIComponents =
  comp_schemas :: "(string \<times> JSONSchema) list"

record OpenAPISpec =
  spec_openapi :: string
  spec_info :: OpenAPIInfo
  spec_components :: OpenAPIComponents

subsection \<open>Failures\<close>

text \<open>
  An \<^verbatim>\<open>assert\<close> that fails and a subscript on a missing key end the run. Both are
  values here, on the left of a sum.
\<close>

datatype error = AssertionError | KeyError string

section \<open>The transformation\<close>

subsection \<open>Formatting\<close>

text \<open>What an f-string prints for an \<^verbatim>\<open>int\<close>: decimal digits, with a minus sign below zero.\<close>

definition digit_char :: "nat \<Rightarrow> char" where
  "digit_char d = ''0123456789'' ! d"

fun str_nat :: "nat \<Rightarrow> string" where
  "str_nat n = (if n < 10 then [digit_char n] else str_nat (n div 10) @ [digit_char (n mod 10)])"

declare str_nat.simps [simp del]

definition str_int :: "int \<Rightarrow> string" where
  "str_int i = (if i < 0 then CHR ''-'' # str_nat (nat (- i)) else str_nat (nat i))"

text \<open>
  \<^verbatim>\<open>if x:\<close> and \<^verbatim>\<open>assert x\<close> on the result of \<^verbatim>\<open>.get\<close>: a missing key gives
  \<^verbatim>\<open>None\<close>, which is false, and so is the empty string.
\<close>

definition truthy :: "string option \<Rightarrow> bool" where
  "truthy x = (case x of None \<Rightarrow> False | Some s \<Rightarrow> s \<noteq> [])"

definition ref_path :: "string \<Rightarrow> string" where
  "ref_path t = ''#/components/schemas/'' @ t"

subsection \<open>\<^verbatim>\<open>openAPISpec\<close>\<close>

definition openAPISpec ::
  "string \<Rightarrow> string \<Rightarrow> int \<times> int \<Rightarrow> string \<Rightarrow> (string \<times> JSONSchema) list \<Rightarrow> OpenAPISpec" where
  "openAPISpec openapi_version title version signature schemas =
     \<lparr>spec_openapi = openapi_version,
      spec_info = \<lparr>info_title = title,
                   info_version = str_int (fst version) @ ''.'' @ str_int (snd version),
                   info_x_signature = signature\<rparr>,
      spec_components = \<lparr>comp_schemas = schemas\<rparr>\<rparr>"

subsection \<open>\<^verbatim>\<open>dataType\<close>\<close>

definition dataType :: "string \<Rightarrow> JSONSchemaProperty" where
  "dataType t =
     (if t = ''Bool'' then PropertyTyped ''boolean''
      else if t = ''Int'' then PropertyTyped ''integer''
      else if t = ''Double'' then PropertyTypedFormatted ''number'' ''double''
      else if t = ''String'' then PropertyTyped ''string''
      else if t = ''Date'' then PropertyTypedFormatted ''string'' ''date-time''
      else if t = ''SchemaSerializable'' then PropertyAny
      else PropertyReference (ref_path t))"

subsection \<open>\<^verbatim>\<open>schemaType\<close>\<close>

text \<open>
  The body of the loop over \<^verbatim>\<open>t['properties']\<close>, on the pair of the two accumulators
  \<^verbatim>\<open>properties\<close> and \<^verbatim>\<open>required_properties\<close>.
\<close>

fun prop_step ::
  "JSONSchemaProperties \<times> string list \<Rightarrow> PropertyDescriptor \<Rightarrow>
   error + JSONSchemaProperties \<times> string list" where
  "prop_step (properties, required_properties) prop =
     (let prop_wrapped_type = prop_wrapped_type prop
      in if prop_type prop = ''Array'' then
           (if \<not> truthy prop_wrapped_type then Inl AssertionError
            else Inr (AList.update (prop_name prop)
                        (PropertyTypedArray (dataType (the prop_wrapped_type))) properties,
                      required_properties))
         else if prop_type prop = ''Optional'' then
           (if \<not> (prop_is_optional prop \<and> truthy prop_wrapped_type) then Inl AssertionError
            else Inr (AList.update (prop_name prop) (dataType (the prop_wrapped_type)) properties,
                      required_properties @ [prop_name prop]))
         else Inr (AList.update (prop_name prop) (dataType (prop_type prop)) properties,
                   required_properties))"

fun props_loop ::
  "JSONSchemaProperties \<times> string list \<Rightarrow> PropertyDescriptor list \<Rightarrow>
   error + JSONSchemaProperties \<times> string list" where
  "props_loop acc [] = Inr acc"
| "props_loop acc (prop # props) =
     (case prop_step acc prop of
        Inl e \<Rightarrow> Inl e
      | Inr acc' \<Rightarrow> props_loop acc' props)"

definition schemaType :: "TypeDescriptor \<Rightarrow> error + string \<times> JSONSchemaNode list" where
  "schemaType t =
     (let title = ti_name (td_type t);
          kind = td_kind t
      in if kind = ''value'' \<or> kind = ''array'' then Inr (title, [])
         else if kind \<noteq> ''object'' then Inl AssertionError
         else
           (let supertype = ti_supertype (td_type t);
                schemas = (if truthy supertype then [NodeReference (ref_path (the supertype))]
                           else [])
            in case td_properties t of
                 None \<Rightarrow> Inl (KeyError ''properties'')
               | Some props \<Rightarrow>
                   (case props_loop ([], []) props of
                      Inl e \<Rightarrow> Inl e
                    | Inr (properties, required_properties) \<Rightarrow>
                        Inr (title,
                             schemas @
                             [NodeType \<lparr>schema_type = kind,
                                        schema_properties = properties,
                                        schema_additionalProperties = False,
                                        schema_required = required_properties\<rparr>]))))"

subsection \<open>\<^verbatim>\<open>gen_openapi\<close>\<close>

text \<open>The body of the loop over \<^verbatim>\<open>xcrt_desc['types']\<close>, on the accumulator \<^verbatim>\<open>all_schemas\<close>.\<close>

definition gen_step ::
  "(string \<times> JSONSchema) list \<Rightarrow> TypeDescriptor \<Rightarrow> error + (string \<times> JSONSchema) list" where
  "gen_step all_schemas xcrt_type =
     (case schemaType xcrt_type of
        Inl e \<Rightarrow> Inl e
      | Inr (title, schemas) \<Rightarrow>
          if length schemas = 0 then Inr all_schemas
          else if length schemas = 1 then Inr (AList.update title (Plain (hd schemas)) all_schemas)
          else Inr (AList.update title (Composing schemas) all_schemas))"

fun types_loop ::
  "(string \<times> JSONSchema) list \<Rightarrow> TypeDescriptor list \<Rightarrow> error + (string \<times> JSONSchema) list" where
  "types_loop all_schemas [] = Inr all_schemas"
| "types_loop all_schemas (xcrt_type # rest) =
     (case gen_step all_schemas xcrt_type of
        Inl e \<Rightarrow> Inl e
      | Inr all_schemas' \<Rightarrow> types_loop all_schemas' rest)"

text \<open>
  \<^verbatim>\<open>gen_openapi\<close> on the parsed document. The source parses the stream first
  (\<^verbatim>\<open>json.load\<close>); the document here is that parse result.
\<close>

definition gen_openapi :: "Document \<Rightarrow> string \<Rightarrow> error + OpenAPISpec" where
  "gen_openapi xcrt_desc openapi_version =
     (case types_loop [] (doc_types xcrt_desc) of
        Inl e \<Rightarrow> Inl e
      | Inr all_schemas \<Rightarrow>
          Inr (openAPISpec openapi_version
                 (doc_name xcrt_desc)
                 (ver_major (doc_version xcrt_desc), ver_minor (doc_version xcrt_desc))
                 (doc_signature xcrt_desc)
                 all_schemas))"

section \<open>Reading a decimal back\<close>

text \<open>
  The inverse of the formatting above. It is not part of the program; it is what the
  statement that the formatting loses no digit is written with.
\<close>

definition digit_value :: "char \<Rightarrow> nat" where
  "digit_value c = of_char c - 48"

definition read_nat :: "string \<Rightarrow> nat" where
  "read_nat s = foldl (\<lambda>a c. 10 * a + digit_value c) 0 s"

definition read_int :: "string \<Rightarrow> int" where
  "read_int s =
     (case s of
        [] \<Rightarrow> 0
      | c # cs \<Rightarrow> if c = CHR ''-'' then - int (read_nat cs) else int (read_nat s))"

section \<open>Example documents\<close>

text \<open>
  The descriptors of the examples: an object with a plain and an \<^verbatim>\<open>Optional\<close> property,
  an object with a supertype and no property, a value type, an object with an
  \<^verbatim>\<open>Array\<close> property, and an object whose \<^verbatim>\<open>Array\<close> property has no
  \<^verbatim>\<open>wrappedType\<close>.
\<close>

definition example_Foo :: TypeDescriptor where
  "example_Foo =
     \<lparr>td_kind = ''object'',
      td_type = \<lparr>ti_name = ''Foo'', ti_supertype = None\<rparr>,
      td_properties = Some
        [\<lparr>prop_name = ''id'', prop_type = ''String'',
          prop_wrapped_type = None, prop_is_optional = False\<rparr>,
         \<lparr>prop_name = ''tag'', prop_type = ''Optional'',
          prop_wrapped_type = Some ''String'', prop_is_optional = True\<rparr>]\<rparr>"

definition example_Bar :: TypeDescriptor where
  "example_Bar =
     \<lparr>td_kind = ''object'',
      td_type = \<lparr>ti_name = ''Bar'', ti_supertype = Some ''Foo''\<rparr>,
      td_properties = Some []\<rparr>"

definition example_Baz :: TypeDescriptor where
  "example_Baz =
     \<lparr>td_kind = ''value'',
      td_type = \<lparr>ti_name = ''Baz'', ti_supertype = None\<rparr>,
      td_properties = None\<rparr>"

definition example_Qux :: TypeDescriptor where
  "example_Qux =
     \<lparr>td_kind = ''object'',
      td_type = \<lparr>ti_name = ''Qux'', ti_supertype = None\<rparr>,
      td_properties = Some
        [\<lparr>prop_name = ''items'', prop_type = ''Array'',
          prop_wrapped_type = Some ''Foo'', prop_is_optional = False\<rparr>]\<rparr>"

definition example_Bad :: TypeDescriptor where
  "example_Bad =
     \<lparr>td_kind = ''object'',
      td_type = \<lparr>ti_name = ''Bad'', ti_supertype = None\<rparr>,
      td_properties = Some
        [\<lparr>prop_name = ''items'', prop_type = ''Array'',
          prop_wrapped_type = None, prop_is_optional = False\<rparr>]\<rparr>"

definition example_document :: Document where
  "example_document =
     \<lparr>doc_name = ''X'',
      doc_version = \<lparr>ver_major = 3, ver_minor = 14\<rparr>,
      doc_signature = ''abc'',
      doc_types = [example_Baz, example_Foo, example_Bar]\<rparr>"

definition example_malformed_document :: Document where
  "example_malformed_document = example_document\<lparr>doc_types := [example_Foo, example_Bad]\<rparr>"

definition example_Foo_schema :: JSONSchemaType where
  "example_Foo_schema =
     \<lparr>schema_type = ''object'',
      schema_properties = [(''id'', PropertyTyped ''string''), (''tag'', PropertyTyped ''string'')],
      schema_additionalProperties = False,
      schema_required = [''tag'']\<rparr>"

definition example_Bar_schema :: JSONSchemaType where
  "example_Bar_schema =
     \<lparr>schema_type = ''object'',
      schema_properties = [],
      schema_additionalProperties = False,
      schema_required = []\<rparr>"

definition example_Qux_schema :: JSONSchemaType where
  "example_Qux_schema =
     \<lparr>schema_type = ''object'',
      schema_properties =
        [(''items'', PropertyTypedArray (PropertyReference ''#/components/schemas/Foo''))],
      schema_additionalProperties = False,
      schema_required = []\<rparr>"

definition example_output :: OpenAPISpec where
  "example_output =
     \<lparr>spec_openapi = ''3.1.0'',
      spec_info = \<lparr>info_title = ''X'', info_version = ''3.14'', info_x_signature = ''abc''\<rparr>,
      spec_components = \<lparr>comp_schemas =
        [(''Foo'', Plain (NodeType example_Foo_schema)),
         (''Bar'', Composing [NodeReference ''#/components/schemas/Foo'',
                              NodeType example_Bar_schema])]\<rparr>\<rparr>"

section \<open>The property loop\<close>

lemma prop_step_required:
  "prop_step (ps, rq) p = Inr (ps', rq') \<Longrightarrow>
   rq' = rq @ (if prop_type p = ''Optional'' then [prop_name p] else [])"
  by (auto simp: Let_def split: if_splits)

lemma prop_step_keys:
  "prop_step (ps, rq) p = Inr (ps', rq') \<Longrightarrow>
   map fst ps' = (if prop_name p \<in> set (map fst ps) then map fst ps else map fst ps @ [prop_name p])"
proof -
  assume "prop_step (ps, rq) p = Inr (ps', rq')"
  then obtain v where "ps' = AList.update (prop_name p) v ps"
    by (auto simp: Let_def split: if_splits)
  then show ?thesis by (simp add: update_keys)
qed

lemma prop_step_other:
  "prop_step (ps, rq) p = Inr (ps', rq') \<Longrightarrow> k \<noteq> prop_name p \<Longrightarrow> map_of ps' k = map_of ps k"
  by (auto simp: Let_def update_conv' split: if_splits)

lemma props_loop_append:
  "props_loop acc (xs @ ys) =
     (case props_loop acc xs of Inl e \<Rightarrow> Inl e | Inr acc' \<Rightarrow> props_loop acc' ys)"
  by (induction xs arbitrary: acc) (auto split: sum.splits)

lemma props_loop_required:
  "props_loop (ps, rq) props = Inr (ps', rq') \<Longrightarrow>
   rq' = rq @ map prop_name (filter (\<lambda>p. prop_type p = ''Optional'') props)"
proof (induction props arbitrary: ps rq)
  case Nil
  then show ?case by simp
next
  case (Cons p props)
  from Cons.prems obtain ps1 rq1 where
    step: "prop_step (ps, rq) p = Inr (ps1, rq1)" and rest: "props_loop (ps1, rq1) props = Inr (ps', rq')"
    by (auto split: sum.splits)
  from prop_step_required [OF step] Cons.IH [OF rest] show ?case by simp
qed

lemma remdups_drop_earlier: "x \<in> set B \<Longrightarrow> remdups (A @ x # B) = remdups (A @ B)"
  by (induction A) auto

lemma props_loop_keys:
  "props_loop (ps, rq) props = Inr (ps', rq') \<Longrightarrow> distinct (map fst ps) \<Longrightarrow>
   map fst ps' = rev (remdups (rev (map fst ps @ map prop_name props)))"
proof (induction props arbitrary: ps rq)
  case Nil
  then show ?case by (simp add: distinct_remdups_id)
next
  case (Cons p props)
  from Cons.prems obtain ps1 rq1 where
    step: "prop_step (ps, rq) p = Inr (ps1, rq1)" and rest: "props_loop (ps1, rq1) props = Inr (ps', rq')"
    by (auto split: sum.splits)
  have keys1: "map fst ps1 = (if prop_name p \<in> set (map fst ps) then map fst ps else map fst ps @ [prop_name p])"
    by (rule prop_step_keys [OF step])
  have d1: "distinct (map fst ps1)" using keys1 Cons.prems(2) by (auto split: if_splits)
  have ih: "map fst ps' = rev (remdups (rev (map fst ps1 @ map prop_name props)))"
    by (rule Cons.IH [OF rest d1])
  show ?case
  proof (cases "prop_name p \<in> set (map fst ps)")
    case True
    then have "remdups (rev (map prop_name props) @ prop_name p # rev (map fst ps))
             = remdups (rev (map prop_name props) @ rev (map fst ps))"
      by (intro remdups_drop_earlier) simp
    with True ih keys1 show ?thesis by simp
  next
    case False
    with ih keys1 show ?thesis by simp
  qed
qed

lemma props_loop_other:
  "props_loop (ps, rq) props = Inr (ps', rq') \<Longrightarrow> k \<notin> prop_name ` set props \<Longrightarrow>
   map_of ps' k = map_of ps k"
proof (induction props arbitrary: ps rq)
  case Nil
  then show ?case by simp
next
  case (Cons p props)
  from Cons.prems obtain ps1 rq1 where
    step: "prop_step (ps, rq) p = Inr (ps1, rq1)" and rest: "props_loop (ps1, rq1) props = Inr (ps', rq')"
    by (auto split: sum.splits)
  from Cons.prems(2) have "k \<noteq> prop_name p" "k \<notin> prop_name ` set props" by auto
  with prop_step_other [OF step] Cons.IH [OF rest] show ?case by simp
qed

lemma prop_step_optional:
  assumes "prop_step (ps, rq) p = Inr (ps', rq')" and "prop_type p = ''Optional''"
  obtains w where "prop_wrapped_type p = Some w" "w \<noteq> []" "prop_is_optional p"
    "ps' = AList.update (prop_name p) (dataType w) ps" "rq' = rq @ [prop_name p]"
  using assms by (cases "prop_wrapped_type p") (auto simp: truthy_def split: if_splits)

lemma prop_step_array:
  assumes "prop_step (ps, rq) p = Inr (ps', rq')" and "prop_type p = ''Array''"
  obtains w where "prop_wrapped_type p = Some w" "w \<noteq> []"
    "ps' = AList.update (prop_name p) (PropertyTypedArray (dataType w)) ps" "rq' = rq"
  using assms by (cases "prop_wrapped_type p") (auto simp: truthy_def split: if_splits)

lemma props_loop_fails:
  "p \<in> set props \<Longrightarrow> (\<And>acc. \<exists>e. prop_step acc p = Inl e) \<Longrightarrow> \<exists>e. props_loop acc props = Inl e"
proof (induction props arbitrary: acc)
  case Nil
  then show ?case by simp
next
  case (Cons q props)
  show ?case
  proof (cases "prop_step acc q")
    case (Inl e)
    then show ?thesis by simp
  next
    case (Inr acc1)
    with Cons.prems(2) [of acc] have "p \<noteq> q" by auto
    with Cons.prems(1) have "p \<in> set props" by simp
    from Cons.IH [OF this Cons.prems(2), of acc1] Inr show ?thesis by simp
  qed
qed

lemma bad_property_fails:
  assumes "prop_type p = ''Array'' \<and> prop_wrapped_type p = None \<or>
           prop_type p = ''Optional'' \<and> (prop_wrapped_type p = None \<or> \<not> prop_is_optional p)"
  shows "\<exists>e. prop_step acc p = Inl e"
  using assms by (cases acc) (auto simp: truthy_def)

lemma first_keys_distinct: "distinct xs \<Longrightarrow> rev (remdups (rev xs)) = xs"
  by (simp add: distinct_remdups_id)

lemma dataType_not_array: "dataType t \<noteq> PropertyTypedArray s"
  by (simp add: dataType_def)

section \<open>One type descriptor\<close>

lemma schemaType_skipped:
  "td_kind t = ''value'' \<or> td_kind t = ''array'' \<Longrightarrow> schemaType t = Inr (ti_name (td_type t), [])"
  by (auto simp: schemaType_def)

lemma schemaType_object:
  "td_kind t = ''object'' \<Longrightarrow>
   schemaType t =
     (case td_properties t of
        None \<Rightarrow> Inl (KeyError ''properties'')
      | Some props \<Rightarrow>
          (case props_loop ([], []) props of
             Inl e \<Rightarrow> Inl e
           | Inr (properties, required_properties) \<Rightarrow>
               Inr (ti_name (td_type t),
                    (if truthy (ti_supertype (td_type t))
                     then [NodeReference (ref_path (the (ti_supertype (td_type t))))] else []) @
                    [NodeType \<lparr>schema_type = ''object'',
                               schema_properties = properties,
                               schema_additionalProperties = False,
                               schema_required = required_properties\<rparr>])))"
  by (simp add: schemaType_def Let_def)

lemma schemaType_other: 
  "td_kind t \<noteq> ''value'' \<Longrightarrow> td_kind t \<noteq> ''array'' \<Longrightarrow> td_kind t \<noteq> ''object'' \<Longrightarrow>
   schemaType t = Inl AssertionError"
  by (simp add: schemaType_def)

lemma schemaType_Inr_kind:
  "schemaType t = Inr r \<Longrightarrow> td_kind t = ''value'' \<or> td_kind t = ''array'' \<or> td_kind t = ''object''"
  using schemaType_other [of t] by auto

lemma schemaType_Inr_object:
  assumes "schemaType t = Inr (title, schemas)" and "td_kind t = ''object''"
  obtains props properties required_properties where
    "td_properties t = Some props"
    "props_loop ([], []) props = Inr (properties, required_properties)"
    "title = ti_name (td_type t)"
    "schemas =
       (if truthy (ti_supertype (td_type t))
        then [NodeReference (ref_path (the (ti_supertype (td_type t))))] else []) @
       [NodeType \<lparr>schema_type = ''object'', schema_properties = properties,
                  schema_additionalProperties = False, schema_required = required_properties\<rparr>]"
  using assms by (auto simp: schemaType_object split: option.splits sum.splits)

lemma schemaType_object_loop:
  assumes "schemaType t = Inr (title, schemas)" and "td_kind t = ''object''"
    and "td_properties t = Some props"
  obtains properties required_properties where
    "props_loop ([], []) props = Inr (properties, required_properties)"
    "last schemas = NodeType \<lparr>schema_type = ''object'', schema_properties = properties,
                  schema_additionalProperties = False, schema_required = required_properties\<rparr>"
proof -
  from assms(1,2) obtain props' properties required_properties where
    "td_properties t = Some props'"
    "props_loop ([], []) props' = Inr (properties, required_properties)"
    "schemas =
       (if truthy (ti_supertype (td_type t))
        then [NodeReference (ref_path (the (ti_supertype (td_type t))))] else []) @
       [NodeType \<lparr>schema_type = ''object'', schema_properties = properties,
                  schema_additionalProperties = False, schema_required = required_properties\<rparr>]"
    by (rule schemaType_Inr_object)
  with assms(3) that show ?thesis by simp
qed

section \<open>The assembly loop\<close>

lemma gen_step_skipped:
  "td_kind t = ''value'' \<or> td_kind t = ''array'' \<Longrightarrow> gen_step all_schemas t = Inr all_schemas"
  by (simp add: gen_step_def schemaType_skipped)

lemma gen_step_object:
  assumes "td_kind t = ''object''" and "schemaType t = Inr (title, schemas)"
  shows "gen_step all_schemas t =
           Inr (AList.update (ti_name (td_type t))
                  (if length schemas = 1 then Plain (hd schemas) else Composing schemas) all_schemas)"
proof -
  from assms(2,1) have "title = ti_name (td_type t)" and "schemas \<noteq> []"
    by (auto elim!: schemaType_Inr_object)
  with assms(2) show ?thesis by (simp add: gen_step_def)
qed

lemma gen_step_Inr:
  assumes "gen_step all_schemas t = Inr all_schemas'"
  shows "(td_kind t = ''value'' \<or> td_kind t = ''array'') \<and> all_schemas' = all_schemas \<or>
         td_kind t = ''object'' \<and>
           (\<exists>e. all_schemas' = AList.update (ti_name (td_type t)) e all_schemas)"
proof -
  from assms obtain title schemas where st: "schemaType t = Inr (title, schemas)"
    by (auto simp: gen_step_def split: sum.splits)
  from schemaType_Inr_kind [OF st] consider
    "td_kind t = ''value'' \<or> td_kind t = ''array''" | "td_kind t = ''object''" by blast
  then show ?thesis
  proof cases
    case 1
    with assms gen_step_skipped [OF 1, of all_schemas] show ?thesis by simp
  next
    case 2
    with assms gen_step_object [OF 2 st, of all_schemas] show ?thesis by auto
  qed
qed

lemma gen_step_keys:
  assumes "gen_step acc t = Inr acc'"
  shows "map fst acc' =
           (if td_kind t = ''value'' \<or> td_kind t = ''array'' \<or> ti_name (td_type t) \<in> set (map fst acc)
            then map fst acc else map fst acc @ [ti_name (td_type t)])"
  using gen_step_Inr [OF assms] by (force simp: update_keys)

lemma types_loop_append:
  "types_loop acc (xs @ ys) =
     (case types_loop acc xs of Inl e \<Rightarrow> Inl e | Inr acc' \<Rightarrow> types_loop acc' ys)"
  by (induction xs arbitrary: acc) (auto split: sum.splits)

lemma types_loop_other:
  "types_loop acc ts = Inr acc' \<Longrightarrow>
   \<forall>u \<in> set ts. td_kind u = ''object'' \<longrightarrow> ti_name (td_type u) \<noteq> k \<Longrightarrow>
   map_of acc' k = map_of acc k"
proof (induction ts arbitrary: acc)
  case Nil
  then show ?case by simp
next
  case (Cons t ts)
  from Cons.prems(1) obtain acc1 where
    step: "gen_step acc t = Inr acc1" and rest: "types_loop acc1 ts = Inr acc'"
    by (auto split: sum.splits)
  from gen_step_Inr [OF step] Cons.prems(2) have "map_of acc1 k = map_of acc k"
    by (auto simp: update_conv')
  moreover from Cons.prems(2) have "map_of acc' k = map_of acc1 k"
    by (intro Cons.IH [OF rest]) simp
  ultimately show ?case by simp
qed

lemma types_loop_keys:
  "types_loop acc ts = Inr acc' \<Longrightarrow> distinct (map fst acc) \<Longrightarrow>
   map fst acc' =
     rev (remdups (rev (map fst acc @
       map (\<lambda>t. ti_name (td_type t)) (filter (\<lambda>t. \<not> (td_kind t = ''value'' \<or> td_kind t = ''array'')) ts))))"
proof (induction ts arbitrary: acc)
  case Nil
  then show ?case by (simp add: distinct_remdups_id)
next
  case (Cons t ts)
  let ?name = "\<lambda>t. ti_name (td_type t)"
  let ?kept = "filter (\<lambda>t. \<not> (td_kind t = ''value'' \<or> td_kind t = ''array''))"
  from Cons.prems(1) obtain acc1 where
    step: "gen_step acc t = Inr acc1" and rest: "types_loop acc1 ts = Inr acc'"
    by (auto split: sum.splits)
  note keys1 = gen_step_keys [OF step]
  have d1: "distinct (map fst acc1)" using keys1 Cons.prems(2) by (auto split: if_splits)
  have ih: "map fst acc' = rev (remdups (rev (map fst acc1 @ map ?name (?kept ts))))"
    by (rule Cons.IH [OF rest d1])
  show ?case
  proof (cases "td_kind t = ''value'' \<or> td_kind t = ''array''")
    case True
    with keys1 have "map fst acc1 = map fst acc" by auto
    moreover from True have "?kept (t # ts) = ?kept ts" by auto
    ultimately show ?thesis using ih by simp
  next
    case skipped: False
    show ?thesis
    proof (cases "?name t \<in> set (map fst acc)")
      case True
      then have "remdups (rev (map ?name (?kept ts)) @ ?name t # rev (map fst acc))
               = remdups (rev (map ?name (?kept ts)) @ rev (map fst acc))"
        by (intro remdups_drop_earlier) simp
      with True skipped ih keys1 show ?thesis by simp
    next
      case False
      with skipped ih keys1 show ?thesis by simp
    qed
  qed
qed

lemma types_loop_fails:
  "t \<in> set ts \<Longrightarrow> schemaType t = Inl e \<Longrightarrow> \<exists>e'. types_loop acc ts = Inl e'"
proof (induction ts arbitrary: acc)
  case Nil
  then show ?case by simp
next
  case (Cons u ts)
  show ?case
  proof (cases "gen_step acc u")
    case (Inl e')
    then show ?thesis by simp
  next
    case (Inr acc1)
    with Cons.prems have "t \<noteq> u" by (auto simp: gen_step_def)
    with Cons.prems have "t \<in> set ts" by simp
    from Cons.IH [OF this Cons.prems(2), of acc1] Inr show ?thesis by simp
  qed
qed

lemma types_loop_succeeds:
  "types_loop acc ts = Inr acc' \<Longrightarrow> t \<in> set ts \<Longrightarrow> \<exists>r. schemaType t = Inr r"
  using types_loop_fails [of t ts _ acc] by (cases "schemaType t") auto

lemma types_loop_entry:
  assumes loop: "types_loop acc (pre @ t # post) = Inr acc'"
    and kind: "td_kind t = ''object''"
    and st: "schemaType t = Inr (title, schemas)"
    and later: "\<forall>u \<in> set post. td_kind u = ''object'' \<longrightarrow> ti_name (td_type u) \<noteq> ti_name (td_type t)"
  shows "map_of acc' (ti_name (td_type t)) =
           Some (if length schemas = 1 then Plain (hd schemas) else Composing schemas)"
proof -
  from loop obtain acc1 where pre: "types_loop acc pre = Inr acc1"
    and rest: "types_loop acc1 (t # post) = Inr acc'"
    by (auto simp: types_loop_append split: sum.splits)
  from rest gen_step_object [OF kind st, of acc1]
  have post: "types_loop (AList.update (ti_name (td_type t))
                 (if length schemas = 1 then Plain (hd schemas) else Composing schemas) acc1) post = Inr acc'"
    by simp
  from types_loop_other [OF post later] show ?thesis by (simp add: update_conv')
qed

lemma types_loop_key_origin:
  "types_loop acc ts = Inr acc' \<Longrightarrow> k \<in> fst ` set acc' \<Longrightarrow>
   k \<in> fst ` set acc \<or> (\<exists>u \<in> set ts. td_kind u = ''object'' \<and> ti_name (td_type u) = k)"
proof (induction ts arbitrary: acc)
  case Nil
  then show ?case by simp
next
  case (Cons t ts)
  from Cons.prems(1) obtain acc1 where
    step: "gen_step acc t = Inr acc1" and rest: "types_loop acc1 ts = Inr acc'"
    by (auto split: sum.splits)
  from Cons.IH [OF rest Cons.prems(2)] consider
    "k \<in> fst ` set acc1" | "\<exists>u \<in> set ts. td_kind u = ''object'' \<and> ti_name (td_type u) = k"
    by blast
  then show ?case
  proof cases
    case 1
    from gen_step_Inr [OF step] consider
      "acc1 = acc" | e where "td_kind t = ''object''" "acc1 = AList.update (ti_name (td_type t)) e acc"
      by blast
    then show ?thesis
    proof cases
      case 1
      with \<open>k \<in> fst ` set acc1\<close> show ?thesis by simp
    next
      case 2
      from \<open>k \<in> fst ` set acc1\<close> 2(2) have "k = ti_name (td_type t) \<or> k \<in> fst ` set acc"
        by (simp only: dom_update) blast
      with 2(1) show ?thesis by auto
    qed
  next
    case 2
    then show ?thesis by auto
  qed
qed

lemma distinct_names_later:
  assumes "distinct (map f (pre @ t # post))"
  shows "\<forall>u \<in> set post. f u \<noteq> f t"
  using assms by (auto simp: image_iff)

section \<open>Decimal formatting\<close>

lemma digit_cases: "d < 10 \<Longrightarrow> d \<in> {0, 1, 2, 3, 4, 5, 6, 7, 8, 9 :: nat}"
  by auto

lemma digit_value_digit_char: "d < 10 \<Longrightarrow> digit_value (digit_char d) = d"
  using digit_cases [of d] by (auto simp: digit_value_def digit_char_def)

lemma digit_char_not_minus: "d < 10 \<Longrightarrow> digit_char d \<noteq> CHR ''-''"
  using digit_cases [of d] by (auto simp: digit_char_def)

lemma read_nat_snoc: "read_nat (s @ [c]) = 10 * read_nat s + digit_value c"
  by (simp add: read_nat_def)

lemma read_nat_str_nat: "read_nat (str_nat n) = n"
proof (induction n rule: str_nat.induct)
  case (1 n)
  show ?case
  proof (cases "n < 10")
    case True
    then show ?thesis
      by (subst str_nat.simps) (simp add: read_nat_def digit_value_digit_char)
  next
    case False
    with 1 have "read_nat (str_nat (n div 10)) = n div 10" by simp
    with False show ?thesis
      by (subst str_nat.simps) (simp add: read_nat_snoc digit_value_digit_char)
  qed
qed

lemma str_nat_head: "\<exists>d cs. d < 10 \<and> str_nat n = digit_char d # cs"
proof (induction n rule: str_nat.induct)
  case (1 n)
  show ?case
  proof (cases "n < 10")
    case True
    then show ?thesis by (subst str_nat.simps) auto
  next
    case False
    with 1 obtain d cs where "d < 10" "str_nat (n div 10) = digit_char d # cs" by auto
    with False show ?thesis by (subst str_nat.simps) auto
  qed
qed

lemma read_int_str_int: "read_int (str_int i) = i"
proof (cases "i < 0")
  case True
  then show ?thesis by (simp add: str_int_def read_int_def read_nat_str_nat)
next
  case False
  obtain d cs where d: "d < 10" "str_nat (nat i) = digit_char d # cs"
    using str_nat_head by blast
  have "read_nat (digit_char d # cs) = nat i"
    using read_nat_str_nat [of "nat i"] d(2) by simp
  with False d show ?thesis
    by (simp add: str_int_def read_int_def digit_char_not_minus)
qed

section \<open>The examples, evaluated\<close>

lemma str_int_examples: "str_int 3 = ''3''" "str_int 14 = ''14''"
  by (simp_all add: str_int_def str_nat.simps digit_char_def)

lemma example_Foo_schemaType:
  "schemaType example_Foo = Inr (''Foo'', [NodeType example_Foo_schema])"
  by (simp add: example_Foo_def example_Foo_schema_def schemaType_def truthy_def dataType_def)

lemma example_Bar_schemaType:
  "schemaType example_Bar =
     Inr (''Bar'', [NodeReference ''#/components/schemas/Foo'', NodeType example_Bar_schema])"
  by (simp add: example_Bar_def example_Bar_schema_def schemaType_def truthy_def ref_path_def)

lemma example_Baz_schemaType: "schemaType example_Baz = Inr (''Baz'', [])"
  by (simp add: example_Baz_def schemaType_def)

lemma example_Qux_schemaType:
  "schemaType example_Qux = Inr (''Qux'', [NodeType example_Qux_schema])"
  by (simp add: example_Qux_def example_Qux_schema_def schemaType_def truthy_def dataType_def
      ref_path_def)

lemma example_Bad_schemaType: "schemaType example_Bad = Inl AssertionError"
  by (simp add: example_Bad_def schemaType_def truthy_def)

lemma example_run: "gen_openapi example_document ''3.1.0'' = Inr example_output"
  by (simp add: gen_openapi_def example_document_def example_output_def gen_step_def
      example_Foo_schemaType example_Bar_schemaType example_Baz_schemaType
      openAPISpec_def str_int_examples)

lemma example_names:
  "distinct (map (\<lambda>u. ti_name (td_type u)) (doc_types example_document))"
  by (simp add: example_document_def example_Foo_def example_Bar_def example_Baz_def)

section \<open>Optional properties\<close>

text \<open>
  C1, as it stands, fails when a later property of the same object has the same name: the
  assignment \<^verbatim>\<open>properties[prop_name] = ...\<close> replaces the entry. Below, \<^verbatim>\<open>a\<close> is an
  \<^verbatim>\<open>Optional\<close> property wrapping \<^verbatim>\<open>String\<close>, followed by a plain \<^verbatim>\<open>Int\<close>
  property also named \<^verbatim>\<open>a\<close>. The translation succeeds, \<^verbatim>\<open>a\<close> is listed as
  required, and the properties mapping takes \<^verbatim>\<open>a\<close> to the integer schema, not to the
  string schema that \<^verbatim>\<open>dataType\<close> gives for the wrapped type.
\<close>

theorem optional_property_overwritten:
  "schemaType
     \<lparr>td_kind = ''object'',
      td_type = \<lparr>ti_name = ''T'', ti_supertype = None\<rparr>,
      td_properties = Some
        [\<lparr>prop_name = ''a'', prop_type = ''Optional'',
          prop_wrapped_type = Some ''String'', prop_is_optional = True\<rparr>,
         \<lparr>prop_name = ''a'', prop_type = ''Int'',
          prop_wrapped_type = None, prop_is_optional = False\<rparr>]\<rparr>
   = Inr (''T'',
          [NodeType \<lparr>schema_type = ''object'',
                     schema_properties = [(''a'', PropertyTyped ''integer'')],
                     schema_additionalProperties = False,
                     schema_required = [''a'']\<rparr>]) \<and>
   map_of [(''a'', PropertyTyped ''integer'')] ''a'' \<noteq> Some (dataType ''String'')"
  by (simp add: schemaType_def truthy_def dataType_def)

text \<open>
  C1, amended. Let an object descriptor translate successfully and let \<open>prop\<close> be one of
  its properties, of declared type \<^verbatim>\<open>Optional\<close>. Then \<^verbatim>\<open>wrappedType\<close> is present and
  not empty and \<^verbatim>\<open>isOptional\<close> is true; the loop body assigns \<^verbatim>\<open>dataType(wrappedType)\<close>
  to the property name and appends the name to the required names; the name is in the
  \<^verbatim>\<open>required\<close> list of the object schema; and, when no later property of the object has
  the same name, the \<^verbatim>\<open>properties\<close> mapping of the object schema takes the name to
  \<^verbatim>\<open>dataType(wrappedType)\<close>, which is never an array wrapper.
\<close>

theorem optional_property_required:
  assumes kind: "td_kind t = ''object''"
    and props: "td_properties t = Some (before @ prop # after)"
    and opt: "prop_type prop = ''Optional''"
    and st: "schemaType t = Inr (title, schemas)"
  shows "\<exists>w object_schema.
           prop_wrapped_type prop = Some w \<and> w \<noteq> [] \<and> prop_is_optional prop \<and>
           (\<forall>properties required_properties.
              prop_step (properties, required_properties) prop =
                Inr (AList.update (prop_name prop) (dataType w) properties,
                     required_properties @ [prop_name prop])) \<and>
           last schemas = NodeType object_schema \<and>
           prop_name prop \<in> set (schema_required object_schema) \<and>
           (prop_name prop \<notin> prop_name ` set after \<longrightarrow>
              map_of (schema_properties object_schema) (prop_name prop) = Some (dataType w) \<and>
              (\<forall>s. dataType w \<noteq> PropertyTypedArray s))"
proof -
  from st kind obtain props' properties required_properties where
    "td_properties t = Some props'"
    and loop': "props_loop ([], []) props' = Inr (properties, required_properties)"
    and schemas: "schemas =
       (if truthy (ti_supertype (td_type t))
        then [NodeReference (ref_path (the (ti_supertype (td_type t))))] else []) @
       [NodeType \<lparr>schema_type = ''object'', schema_properties = properties,
                  schema_additionalProperties = False, schema_required = required_properties\<rparr>]"
    by (rule schemaType_Inr_object)
  with props have loop: "props_loop ([], []) (before @ prop # after) = Inr (properties, required_properties)"
    by simp
  then obtain ps0 rq0 ps1 rq1 where
    step: "prop_step (ps0, rq0) prop = Inr (ps1, rq1)"
    and rest: "props_loop (ps1, rq1) after = Inr (properties, required_properties)"
    by (auto simp: props_loop_append split: sum.splits)
  from step opt obtain w where w: "prop_wrapped_type prop = Some w" "w \<noteq> []" "prop_is_optional prop"
    and ps1: "ps1 = AList.update (prop_name prop) (dataType w) ps0"
    and rq1: "rq1 = rq0 @ [prop_name prop]"
    by (rule prop_step_optional)
  from w opt have body: "prop_step (ps, rq) prop =
      Inr (AList.update (prop_name prop) (dataType w) ps, rq @ [prop_name prop])" for ps rq
    by (simp add: truthy_def)
  from props_loop_required [OF rest] rq1 have req: "prop_name prop \<in> set required_properties"
    by simp
  have "map_of properties (prop_name prop) = Some (dataType w)"
    if "prop_name prop \<notin> prop_name ` set after"
    using props_loop_other [OF rest that] ps1 by (simp add: update_conv')
  with w body req schemas show ?thesis by (simp add: dataType_not_array)
qed

theorem optional_property_required_witness:
  "td_kind example_Foo = ''object'' \<and>
   schemaType example_Foo = Inr (''Foo'', [NodeType example_Foo_schema]) \<and>
   ''tag'' \<in> set (schema_required example_Foo_schema) \<and>
   map_of (schema_properties example_Foo_schema) ''tag'' = Some (dataType ''String'')"
  using optional_property_required
    [of example_Foo
        "[\<lparr>prop_name = ''id'', prop_type = ''String'',
           prop_wrapped_type = None, prop_is_optional = False\<rparr>]"
        "\<lparr>prop_name = ''tag'', prop_type = ''Optional'',
          prop_wrapped_type = Some ''String'', prop_is_optional = True\<rparr>"
        "[]" "''Foo''" "[NodeType example_Foo_schema]"]
    example_Foo_schemaType
  by (simp add: example_Foo_def)

section \<open>Object descriptors\<close>

text \<open>
  C2. Let the run succeed on a document whose type names are distinct, and let \<open>t\<close> be
  one of its descriptors, of kind \<^verbatim>\<open>object\<close>. Its translation ends with the object
  schema: \<^verbatim>\<open>type\<close> is the string \<^verbatim>\<open>object\<close>, \<^verbatim>\<open>properties\<close> and \<^verbatim>\<open>required\<close> are what
  the property loop produced from the empty accumulators, and \<^verbatim>\<open>additionalProperties\<close>
  is false. If the supertype is present (\<^verbatim>\<open>if supertype:\<close> holds: the key is there with a
  value that is not empty), the node list is the reference to the supertype followed by the
  object schema, and the entry under the type's name is the \<^verbatim>\<open>allOf\<close> of exactly these
  two. Otherwise the node list is the object schema alone and the entry is that schema,
  with no \<^verbatim>\<open>allOf\<close>.
\<close>

theorem object_definition_entry:
  assumes run: "gen_openapi doc openapi_version = Inr out"
    and mem: "t \<in> set (doc_types doc)"
    and kind: "td_kind t = ''object''"
    and names: "distinct (map (\<lambda>u. ti_name (td_type u)) (doc_types doc))"
  shows "\<exists>props properties required_properties.
           td_properties t = Some props \<and>
           props_loop ([], []) props = Inr (properties, required_properties) \<and>
           (let object_schema = NodeType \<lparr>schema_type = ''object'',
                                          schema_properties = properties,
                                          schema_additionalProperties = False,
                                          schema_required = required_properties\<rparr>;
                supertype = ti_supertype (td_type t);
                reference = NodeReference (''#/components/schemas/'' @ the supertype)
            in (truthy supertype \<longrightarrow>
                  schemaType t = Inr (ti_name (td_type t), [reference, object_schema]) \<and>
                  map_of (comp_schemas (spec_components out)) (ti_name (td_type t)) =
                    Some (Composing [reference, object_schema])) \<and>
               (\<not> truthy supertype \<longrightarrow>
                  schemaType t = Inr (ti_name (td_type t), [object_schema]) \<and>
                  map_of (comp_schemas (spec_components out)) (ti_name (td_type t)) =
                    Some (Plain object_schema)))"
proof -
  from run obtain all_schemas where loop: "types_loop [] (doc_types doc) = Inr all_schemas"
    and out: "comp_schemas (spec_components out) = all_schemas"
    by (auto simp: gen_openapi_def openAPISpec_def split: sum.splits)
  from mem obtain pre post where split: "doc_types doc = pre @ t # post"
    by (auto simp: in_set_conv_decomp)
  from names split have later: "\<forall>u \<in> set post. ti_name (td_type u) \<noteq> ti_name (td_type t)"
    using distinct_names_later [of "\<lambda>u. ti_name (td_type u)" pre t post] by simp
  from types_loop_succeeds [OF loop mem] obtain title schemas where
    st: "schemaType t = Inr (title, schemas)" by auto
  from st kind obtain props properties required_properties where
    props: "td_properties t = Some props"
    and ploop: "props_loop ([], []) props = Inr (properties, required_properties)"
    and title: "title = ti_name (td_type t)"
    and schemas: "schemas =
       (if truthy (ti_supertype (td_type t))
        then [NodeReference (ref_path (the (ti_supertype (td_type t))))] else []) @
       [NodeType \<lparr>schema_type = ''object'', schema_properties = properties,
                  schema_additionalProperties = False, schema_required = required_properties\<rparr>]"
    by (rule schemaType_Inr_object)
  from loop split later have entry: "map_of all_schemas (ti_name (td_type t)) =
      Some (if length schemas = 1 then Plain (hd schemas) else Composing schemas)"
    using types_loop_entry [OF _ kind st, of "[]" pre post all_schemas] by simp
  show ?thesis
    using props ploop st title schemas entry out
    by (auto simp: Let_def ref_path_def)
qed

theorem object_definition_entry_witness:
  "gen_openapi example_document ''3.1.0'' = Inr example_output \<and>
   example_Bar \<in> set (doc_types example_document) \<and>
   td_kind example_Bar = ''object'' \<and>
   distinct (map (\<lambda>u. ti_name (td_type u)) (doc_types example_document)) \<and>
   truthy (ti_supertype (td_type example_Bar)) \<and>
   map_of (comp_schemas (spec_components example_output)) ''Bar'' =
     Some (Composing [NodeReference ''#/components/schemas/Foo'', NodeType example_Bar_schema]) \<and>
   \<not> truthy (ti_supertype (td_type example_Foo)) \<and>
   map_of (comp_schemas (spec_components example_output)) ''Foo'' =
     Some (Plain (NodeType example_Foo_schema))"
  using object_definition_entry [OF example_run _ _ example_names, of example_Bar]
    object_definition_entry [OF example_run _ _ example_names, of example_Foo]
    example_run example_names
  by (simp add: example_document_def example_output_def example_Bar_def example_Foo_def truthy_def)

section \<open>Value and array descriptors\<close>

text \<open>
  C3. Let the run succeed on a document whose type names are distinct, and let \<open>t\<close> be
  one of its descriptors, of kind \<^verbatim>\<open>value\<close> or \<^verbatim>\<open>array\<close>. Its translation is the
  empty node list, the assembly leaves the mapping as it is, and the schemas of the output
  have no entry under the name of \<open>t\<close>.
\<close>

theorem skipped_kinds_no_entry:
  assumes run: "gen_openapi doc openapi_version = Inr out"
    and mem: "t \<in> set (doc_types doc)"
    and kind: "td_kind t = ''value'' \<or> td_kind t = ''array''"
    and names: "distinct (map (\<lambda>u. ti_name (td_type u)) (doc_types doc))"
  shows "schemaType t = Inr (ti_name (td_type t), []) \<and>
         gen_step all_schemas t = Inr all_schemas \<and>
         ti_name (td_type t) \<notin> fst ` set (comp_schemas (spec_components out))"
proof -
  from run obtain result where loop: "types_loop [] (doc_types doc) = Inr result"
    and out: "comp_schemas (spec_components out) = result"
    by (auto simp: gen_openapi_def openAPISpec_def split: sum.splits)
  have "ti_name (td_type t) \<notin> fst ` set result"
  proof
    assume "ti_name (td_type t) \<in> fst ` set result"
    from types_loop_key_origin [OF loop this] obtain u where
      u: "u \<in> set (doc_types doc)" "td_kind u = ''object''" "ti_name (td_type u) = ti_name (td_type t)"
      by auto
    from names have "inj_on (\<lambda>u. ti_name (td_type u)) (set (doc_types doc))"
      by (simp add: distinct_map)
    with u mem have "u = t" by (auto dest: inj_onD)
    with u(2) kind show False by auto
  qed
  with out schemaType_skipped [OF kind] gen_step_skipped [OF kind] show ?thesis by simp
qed

theorem skipped_kinds_no_entry_witness:
  "gen_openapi example_document ''3.1.0'' = Inr example_output \<and>
   example_Baz \<in> set (doc_types example_document) \<and>
   td_kind example_Baz = ''value'' \<and>
   distinct (map (\<lambda>u. ti_name (td_type u)) (doc_types example_document)) \<and>
   schemaType example_Baz = Inr (''Baz'', []) \<and>
   gen_step [] example_Baz = Inr [] \<and>
   ''Baz'' \<notin> fst ` set (comp_schemas (spec_components example_output))"
  using skipped_kinds_no_entry [OF example_run _ _ example_names, of example_Baz "[]"]
    example_run example_names
  by (simp add: example_document_def example_Baz_def)

section \<open>The classification of property types\<close>

text \<open>
  C4. \<^verbatim>\<open>dataType\<close> maps the six built-in names, matched exactly, to their schemas:
  \<^verbatim>\<open>Bool\<close> to \<^verbatim>\<open>{"type": "boolean"}\<close>, \<^verbatim>\<open>Int\<close> to \<^verbatim>\<open>{"type": "integer"}\<close>,
  \<^verbatim>\<open>Double\<close> to \<^verbatim>\<open>{"type": "number", "format": "double"}\<close>, \<^verbatim>\<open>String\<close> to
  \<^verbatim>\<open>{"type": "string"}\<close>, \<^verbatim>\<open>Date\<close> to \<^verbatim>\<open>{"type": "string", "format": "date-time"}\<close>
  and \<^verbatim>\<open>SchemaSerializable\<close> to the empty schema. Every other string \<open>t\<close> becomes the
  reference \<^verbatim>\<open>{"$ref": "#/components/schemas/t"}\<close>, with \<open>t\<close> copied as it is.
\<close>

theorem dataType_table:
  "dataType ''Bool'' = PropertyTyped ''boolean'' \<and>
   dataType ''Int'' = PropertyTyped ''integer'' \<and>
   dataType ''Double'' = PropertyTypedFormatted ''number'' ''double'' \<and>
   dataType ''String'' = PropertyTyped ''string'' \<and>
   dataType ''Date'' = PropertyTypedFormatted ''string'' ''date-time'' \<and>
   dataType ''SchemaSerializable'' = PropertyAny \<and>
   (t \<notin> {''Bool'', ''Int'', ''Double'', ''String'', ''Date'', ''SchemaSerializable''} \<longrightarrow>
      dataType t = PropertyReference (''#/components/schemas/'' @ t))"
  by (simp add: dataType_def ref_path_def)

text \<open>The match is case-sensitive: \<^verbatim>\<open>bool\<close> is not a built-in name.\<close>

theorem dataType_table_witness:
  "''bool'' \<notin> {''Bool'', ''Int'', ''Double'', ''String'', ''Date'', ''SchemaSerializable''} \<and>
   dataType ''bool'' = PropertyReference ''#/components/schemas/bool''"
  using dataType_table [of "''bool''"] by simp

section \<open>Array properties\<close>

text \<open>
  C5, as it stands, fails when another property of the same object has the same name.
  Below, \<^verbatim>\<open>a\<close> is an \<^verbatim>\<open>Array\<close> property wrapping \<^verbatim>\<open>Foo\<close>, followed by an
  \<^verbatim>\<open>Optional\<close> property also named \<^verbatim>\<open>a\<close>. The translation succeeds; the schema of
  \<^verbatim>\<open>a\<close> in the output is the string schema, not the array schema, and \<^verbatim>\<open>a\<close> is in the
  required list.
\<close>

theorem array_property_overwritten:
  "schemaType
     \<lparr>td_kind = ''object'',
      td_type = \<lparr>ti_name = ''T'', ti_supertype = None\<rparr>,
      td_properties = Some
        [\<lparr>prop_name = ''a'', prop_type = ''Array'',
          prop_wrapped_type = Some ''Foo'', prop_is_optional = False\<rparr>,
         \<lparr>prop_name = ''a'', prop_type = ''Optional'',
          prop_wrapped_type = Some ''String'', prop_is_optional = True\<rparr>]\<rparr>
   = Inr (''T'',
          [NodeType \<lparr>schema_type = ''object'',
                     schema_properties = [(''a'', PropertyTyped ''string'')],
                     schema_additionalProperties = False,
                     schema_required = [''a'']\<rparr>]) \<and>
   map_of [(''a'', PropertyTyped ''string'')] ''a'' \<noteq> Some (PropertyTypedArray (dataType ''Foo'')) \<and>
   ''a'' \<in> set [''a'']"
  by (simp add: schemaType_def truthy_def dataType_def)

text \<open>
  C5, amended. Let an object descriptor translate successfully and let \<open>prop\<close> be one of
  its properties, of declared type \<^verbatim>\<open>Array\<close>. Then \<^verbatim>\<open>wrappedType\<close> is present and not
  empty; the loop body assigns the array schema whose items are \<^verbatim>\<open>dataType(wrappedType)\<close>
  to the property name and leaves the required names as they are; when no later property of
  the object has the same name, the \<^verbatim>\<open>properties\<close> mapping of the object schema takes the
  name to that array schema; and the name is in the \<^verbatim>\<open>required\<close> list exactly when another
  property of the object, of declared type \<^verbatim>\<open>Optional\<close>, has the same name.
\<close>

theorem array_property_schema:
  assumes kind: "td_kind t = ''object''"
    and props: "td_properties t = Some (before @ prop # after)"
    and arr: "prop_type prop = ''Array''"
    and st: "schemaType t = Inr (title, schemas)"
  shows "\<exists>w object_schema.
           prop_wrapped_type prop = Some w \<and> w \<noteq> [] \<and>
           (\<forall>properties required_properties.
              prop_step (properties, required_properties) prop =
                Inr (AList.update (prop_name prop) (PropertyTypedArray (dataType w)) properties,
                     required_properties)) \<and>
           last schemas = NodeType object_schema \<and>
           (prop_name prop \<notin> prop_name ` set after \<longrightarrow>
              map_of (schema_properties object_schema) (prop_name prop) =
                Some (PropertyTypedArray (dataType w))) \<and>
           (prop_name prop \<in> set (schema_required object_schema) \<longleftrightarrow>
              (\<exists>q \<in> set before \<union> set after.
                 prop_type q = ''Optional'' \<and> prop_name q = prop_name prop))"
proof -
  from st kind props obtain properties required_properties where
    loop: "props_loop ([], []) (before @ prop # after) = Inr (properties, required_properties)"
    and last: "last schemas = NodeType \<lparr>schema_type = ''object'', schema_properties = properties,
                  schema_additionalProperties = False, schema_required = required_properties\<rparr>"
    by (rule schemaType_object_loop)
  from loop obtain ps0 rq0 ps1 rq1 where
    step: "prop_step (ps0, rq0) prop = Inr (ps1, rq1)"
    and rest: "props_loop (ps1, rq1) after = Inr (properties, required_properties)"
    by (auto simp: props_loop_append split: sum.splits)
  from step arr obtain w where w: "prop_wrapped_type prop = Some w" "w \<noteq> []"
    and ps1: "ps1 = AList.update (prop_name prop) (PropertyTypedArray (dataType w)) ps0"
    by (rule prop_step_array)
  from w arr have body: "prop_step (ps, rq) prop =
      Inr (AList.update (prop_name prop) (PropertyTypedArray (dataType w)) ps, rq)" for ps rq
    by (simp add: truthy_def)
  have stored: "map_of properties (prop_name prop) = Some (PropertyTypedArray (dataType w))"
    if "prop_name prop \<notin> prop_name ` set after"
    using props_loop_other [OF rest that] ps1 by (simp add: update_conv')
  from props_loop_required [OF loop] arr
  have req: "set required_properties =
      prop_name ` {q \<in> set before \<union> set after. prop_type q = ''Optional''}"
    by auto
  have "prop_name prop \<in> set required_properties \<longleftrightarrow>
      (\<exists>q \<in> set before \<union> set after. prop_type q = ''Optional'' \<and> prop_name q = prop_name prop)"
    unfolding req by (auto simp: image_iff)
  with w body last stored show ?thesis by simp
qed

theorem array_property_schema_witness:
  "td_kind example_Qux = ''object'' \<and>
   schemaType example_Qux = Inr (''Qux'', [NodeType example_Qux_schema]) \<and>
   prop_step ([], [])
     \<lparr>prop_name = ''items'', prop_type = ''Array'',
      prop_wrapped_type = Some ''Foo'', prop_is_optional = False\<rparr> =
     Inr ([(''items'', PropertyTypedArray (dataType ''Foo''))], []) \<and>
   map_of (schema_properties example_Qux_schema) ''items'' =
     Some (PropertyTypedArray (dataType ''Foo'')) \<and>
   ''items'' \<notin> set (schema_required example_Qux_schema)"
  using array_property_schema
    [of example_Qux "[]"
        "\<lparr>prop_name = ''items'', prop_type = ''Array'',
          prop_wrapped_type = Some ''Foo'', prop_is_optional = False\<rparr>"
        "[]" "''Qux''" "[NodeType example_Qux_schema]"]
    example_Qux_schemaType
  by (simp add: example_Qux_def)

section \<open>The document header\<close>

text \<open>
  C6. When the run succeeds, the title of the output is the name of the document, its
  version is the decimal of \<^verbatim>\<open>major\<close>, a dot and the decimal of \<^verbatim>\<open>minor\<close>, its
  signature is the signature of the document, and its \<^verbatim>\<open>openapi\<close> field is the version
  string the caller passed. The decimals read back as the two integers.
\<close>

theorem gen_openapi_info:
  assumes "gen_openapi doc openapi_version = Inr out"
  shows "info_title (spec_info out) = doc_name doc \<and>
         info_version (spec_info out) =
           str_int (ver_major (doc_version doc)) @ ''.'' @ str_int (ver_minor (doc_version doc)) \<and>
         read_int (str_int (ver_major (doc_version doc))) = ver_major (doc_version doc) \<and>
         read_int (str_int (ver_minor (doc_version doc))) = ver_minor (doc_version doc) \<and>
         info_x_signature (spec_info out) = doc_signature doc \<and>
         spec_openapi out = openapi_version"
  using assms
  by (auto simp: gen_openapi_def openAPISpec_def read_int_str_int split: sum.splits)

theorem gen_openapi_info_witness:
  "gen_openapi example_document ''3.1.0'' = Inr example_output \<and>
   info_title (spec_info example_output) = ''X'' \<and>
   info_version (spec_info example_output) = ''3.14'' \<and>
   info_x_signature (spec_info example_output) = ''abc'' \<and>
   spec_openapi example_output = ''3.1.0''"
  using gen_openapi_info [OF example_run] example_run
  by (simp add: example_document_def str_int_examples)

section \<open>Orderings\<close>

text \<open>
  C7. When the run succeeds, the keys of the output schemas are the names of the descriptors
  that are not skipped (kind neither \<^verbatim>\<open>value\<close> nor \<^verbatim>\<open>array\<close>), in the order of the
  document, each name at its first occurrence; with distinct names this is the list of those
  names itself. For each object descriptor of the document, the keys of the \<^verbatim>\<open>properties\<close>
  mapping are the property names in input order, each at its first occurrence (the list of
  names itself when they are distinct), and \<^verbatim>\<open>required\<close> is the list of the names of the
  \<^verbatim>\<open>Optional\<close> properties in input order.
\<close>

theorem output_order:
  assumes run: "gen_openapi doc openapi_version = Inr out"
  shows "map fst (comp_schemas (spec_components out)) =
           rev (remdups (rev (map (\<lambda>t. ti_name (td_type t))
             (filter (\<lambda>t. \<not> (td_kind t = ''value'' \<or> td_kind t = ''array'')) (doc_types doc))))) \<and>
         (distinct (map (\<lambda>t. ti_name (td_type t)) (doc_types doc)) \<longrightarrow>
            map fst (comp_schemas (spec_components out)) =
              map (\<lambda>t. ti_name (td_type t))
                (filter (\<lambda>t. \<not> (td_kind t = ''value'' \<or> td_kind t = ''array'')) (doc_types doc))) \<and>
         (\<forall>t \<in> set (doc_types doc). td_kind t = ''object'' \<longrightarrow>
            (\<exists>props references object_schema.
               td_properties t = Some props \<and>
               schemaType t = Inr (ti_name (td_type t), references @ [NodeType object_schema]) \<and>
               map fst (schema_properties object_schema) = rev (remdups (rev (map prop_name props))) \<and>
               (distinct (map prop_name props) \<longrightarrow>
                  map fst (schema_properties object_schema) = map prop_name props) \<and>
               schema_required object_schema =
                 map prop_name (filter (\<lambda>p. prop_type p = ''Optional'') props)))"
proof (intro conjI ballI impI)
  let ?name = "\<lambda>t. ti_name (td_type t)"
  let ?kept = "filter (\<lambda>t. \<not> (td_kind t = ''value'' \<or> td_kind t = ''array''))"
  from run obtain all_schemas where loop: "types_loop [] (doc_types doc) = Inr all_schemas"
    and out: "comp_schemas (spec_components out) = all_schemas"
    by (auto simp: gen_openapi_def openAPISpec_def split: sum.splits)
  from types_loop_keys [OF loop] out
  show keys: "map fst (comp_schemas (spec_components out)) =
           rev (remdups (rev (map ?name (?kept (doc_types doc)))))"
    by simp
  show "map fst (comp_schemas (spec_components out)) = map ?name (?kept (doc_types doc))"
    if "distinct (map ?name (doc_types doc))"
  proof -
    from that have "distinct (map ?name (?kept (doc_types doc)))"
      by (rule distinct_map_filter)
    then have "rev (remdups (rev (map ?name (?kept (doc_types doc))))) = map ?name (?kept (doc_types doc))"
      by (rule first_keys_distinct)
    with keys show ?thesis by (simp only:)
  qed
  show "\<exists>props references object_schema.
               td_properties t = Some props \<and>
               schemaType t = Inr (ti_name (td_type t), references @ [NodeType object_schema]) \<and>
               map fst (schema_properties object_schema) = rev (remdups (rev (map prop_name props))) \<and>
               (distinct (map prop_name props) \<longrightarrow>
                  map fst (schema_properties object_schema) = map prop_name props) \<and>
               schema_required object_schema =
                 map prop_name (filter (\<lambda>p. prop_type p = ''Optional'') props)"
    if mem: "t \<in> set (doc_types doc)" and kind: "td_kind t = ''object''" for t
  proof -
    from types_loop_succeeds [OF loop mem] obtain title schemas where
      st: "schemaType t = Inr (title, schemas)" by auto
    from st kind obtain props properties required_properties where
      props: "td_properties t = Some props"
      and ploop: "props_loop ([], []) props = Inr (properties, required_properties)"
      and title: "title = ti_name (td_type t)"
      and schemas: "schemas =
         (if truthy (ti_supertype (td_type t))
          then [NodeReference (ref_path (the (ti_supertype (td_type t))))] else []) @
         [NodeType \<lparr>schema_type = ''object'', schema_properties = properties,
                    schema_additionalProperties = False, schema_required = required_properties\<rparr>]"
      by (rule schemaType_Inr_object)
    from props_loop_keys [OF ploop]
    have pkeys: "map fst properties = rev (remdups (rev (map prop_name props)))" by simp
    have exact: "map fst properties = map prop_name props" if "distinct (map prop_name props)"
    proof -
      from that have "rev (remdups (rev (map prop_name props))) = map prop_name props"
        by (rule first_keys_distinct)
      with pkeys show ?thesis by (simp only:)
    qed
    from props_loop_required [OF ploop]
    have req: "required_properties = map prop_name (filter (\<lambda>p. prop_type p = ''Optional'') props)"
      by simp
    from props st title schemas pkeys exact req show ?thesis by auto
  qed
qed

theorem output_order_witness:
  "gen_openapi example_document ''3.1.0'' = Inr example_output \<and>
   map fst (comp_schemas (spec_components example_output)) = [''Foo'', ''Bar''] \<and>
   map fst (schema_properties example_Foo_schema) = [''id'', ''tag''] \<and>
   schema_required example_Foo_schema = [''tag'']"
  using output_order [OF example_run] example_run
  by (simp add: example_output_def example_Foo_schema_def)

section \<open>Failures\<close>

text \<open>
  C8. If some descriptor of the document has a kind other than \<^verbatim>\<open>value\<close>, \<^verbatim>\<open>array\<close>
  and \<^verbatim>\<open>object\<close>, or is an object with an \<^verbatim>\<open>Array\<close> property without \<^verbatim>\<open>wrappedType\<close>,
  or with an \<^verbatim>\<open>Optional\<close> property without \<^verbatim>\<open>wrappedType\<close> or whose \<^verbatim>\<open>isOptional\<close>
  is false, then the run fails: the result is an error and no output document, whatever
  the descriptors before it are.
\<close>

theorem malformed_input_fails:
  assumes mem: "t \<in> set (doc_types doc)"
    and bad: "td_kind t \<notin> {''value'', ''array'', ''object''} \<or>
              td_kind t = ''object'' \<and>
              (\<exists>props p. td_properties t = Some props \<and> p \<in> set props \<and>
                 (prop_type p = ''Array'' \<and> prop_wrapped_type p = None \<or>
                  prop_type p = ''Optional'' \<and>
                    (prop_wrapped_type p = None \<or> \<not> prop_is_optional p)))"
  shows "\<exists>e. gen_openapi doc openapi_version = Inl e"
proof -
  have "\<exists>e. schemaType t = Inl e"
    using bad
  proof
    assume "td_kind t \<notin> {''value'', ''array'', ''object''}"
    then show ?thesis by (simp add: schemaType_other)
  next
    assume obj: "td_kind t = ''object'' \<and>
              (\<exists>props p. td_properties t = Some props \<and> p \<in> set props \<and>
                 (prop_type p = ''Array'' \<and> prop_wrapped_type p = None \<or>
                  prop_type p = ''Optional'' \<and>
                    (prop_wrapped_type p = None \<or> \<not> prop_is_optional p)))"
    then obtain props p where props: "td_properties t = Some props" and p: "p \<in> set props"
      and badp: "prop_type p = ''Array'' \<and> prop_wrapped_type p = None \<or>
                 prop_type p = ''Optional'' \<and> (prop_wrapped_type p = None \<or> \<not> prop_is_optional p)"
      by blast
    from props_loop_fails [OF p bad_property_fails [OF badp]]
    obtain e where "props_loop ([], []) props = Inl e" by blast
    with obj props show ?thesis by (simp add: schemaType_object)
  qed
  then obtain e where "schemaType t = Inl e" ..
  from types_loop_fails [OF mem this] obtain e' where "types_loop [] (doc_types doc) = Inl e'" ..
  then show ?thesis by (simp add: gen_openapi_def)
qed

theorem malformed_input_fails_witness:
  "example_Bad \<in> set (doc_types example_malformed_document) \<and>
   td_kind example_Bad = ''object'' \<and>
   gen_openapi example_malformed_document ''3.1.0'' = Inl AssertionError"
  using malformed_input_fails [of example_Bad example_malformed_document "''3.1.0''"]
  by (simp add: example_malformed_document_def example_Bad_def gen_openapi_def gen_step_def
      example_Foo_schemaType example_Bad_schemaType [unfolded example_Bad_def])

section \<open>An empty supertype\<close>

text \<open>
  C10. A descriptor whose supertype is the empty string translates as the same descriptor
  without a supertype. For an object descriptor that translates, the node list is the object
  schema alone: no reference is appended, and the assembly stores that schema under the
  type's name with no \<^verbatim>\<open>allOf\<close>.
\<close>

theorem empty_supertype_is_absent:
  assumes "ti_supertype (td_type t) = Some []"
  shows "schemaType t = schemaType (t\<lparr>td_type := (td_type t)\<lparr>ti_supertype := None\<rparr>\<rparr>) \<and>
         (td_kind t = ''object'' \<and> schemaType t = Inr (title, schemas) \<longrightarrow>
            (\<exists>object_schema. schemas = [NodeType object_schema] \<and>
               gen_step all_schemas t =
                 Inr (AList.update (ti_name (td_type t)) (Plain (NodeType object_schema)) all_schemas)))"
proof -
  have same: "schemaType t = schemaType (t\<lparr>td_type := (td_type t)\<lparr>ti_supertype := None\<rparr>\<rparr>)"
    using assms by (simp add: schemaType_def truthy_def Let_def)
  moreover
  { assume kind: "td_kind t = ''object''" and st: "schemaType t = Inr (title, schemas)"
    from st kind obtain props properties required_properties where
      "td_properties t = Some props"
      "props_loop ([], []) props = Inr (properties, required_properties)"
      "title = ti_name (td_type t)"
      "schemas =
         (if truthy (ti_supertype (td_type t))
          then [NodeReference (ref_path (the (ti_supertype (td_type t))))] else []) @
         [NodeType \<lparr>schema_type = ''object'', schema_properties = properties,
                    schema_additionalProperties = False, schema_required = required_properties\<rparr>]"
      by (rule schemaType_Inr_object)
    with assms have one: "schemas = [NodeType \<lparr>schema_type = ''object'', schema_properties = properties,
                    schema_additionalProperties = False, schema_required = required_properties\<rparr>]"
      by (simp add: truthy_def)
    with gen_step_object [OF kind st, of all_schemas]
    have "\<exists>object_schema. schemas = [NodeType object_schema] \<and>
               gen_step all_schemas t =
                 Inr (AList.update (ti_name (td_type t)) (Plain (NodeType object_schema)) all_schemas)"
      by simp }
  ultimately show ?thesis by blast
qed

theorem empty_supertype_is_absent_witness:
  "schemaType (example_Bar\<lparr>td_type := \<lparr>ti_name = ''Bar'', ti_supertype = Some []\<rparr>\<rparr>) =
     Inr (''Bar'', [NodeType example_Bar_schema]) \<and>
   gen_step [] (example_Bar\<lparr>td_type := \<lparr>ti_name = ''Bar'', ti_supertype = Some []\<rparr>\<rparr>) =
     Inr [(''Bar'', Plain (NodeType example_Bar_schema))]"
  using empty_supertype_is_absent
    [of "example_Bar\<lparr>td_type := \<lparr>ti_name = ''Bar'', ti_supertype = Some []\<rparr>\<rparr>"
        "''Bar''" "[NodeType example_Bar_schema]" "[]"]
  by (simp add: example_Bar_def example_Bar_schema_def schemaType_def truthy_def gen_step_def)

end
